theory Spec2Isabelle
  imports Complex_Main "HOL-Library.List_Lexorder" "HOL-Library.Log_Nat" "HOL-Library.AList"
begin

section \<open>Strings, errors and snapshots\<close>

text \<open>
  A Python \<open>str\<close> is a sequence of Unicode code points: \<open>len\<close>, slicing and
  \<open>replace\<close> count code points, and \<open>sorted\<close> compares strings lexicographically
  by code point, a proper prefix being smaller. A character is the integer \<open>ord\<close>
  gives, and a string is a list of them, ordered by the lexicographic order on lists.
\<close>

type_synonym pystr = "int list"

definition str :: "string \<Rightarrow> pystr" where
  "str s = map of_char s"

text \<open>
  The exceptions of the program; each carries the text that \<open>str(e)\<close> shows.
  \<open>OSError\<close> stands for every failure of \<open>open\<close>, \<open>readlines\<close> and \<open>write\<close>
  (missing file, permission, invalid UTF-8).
\<close>

datatype py_error =
    KeyError pystr
  | ValueError pystr
  | OverflowError pystr
  | OSError pystr

text \<open>
  \<open>repr(s)\<close> of a string without quotes, backslashes and unprintable characters, as
  the texts of \<open>KeyError\<close> and of the \<open>ValueError\<close> of \<open>float\<close> show it.
\<close>

definition quote :: "pystr \<Rightarrow> pystr" where
  "quote s = [0x27] @ s @ [0x27]"

text \<open>
  A snapshot is the dictionary \<open>{full path: size in bytes}\<close>, kept as an association
  list in insertion order: \<open>path in snap\<close> is \<open>map_of snap path \<noteq> None\<close>,
  \<open>snap.keys()\<close> is \<open>map fst snap\<close>, and \<open>snap[path] = size\<close> is
  \<open>AList.update path size snap\<close>.
\<close>

type_synonym snapshot = "(pystr \<times> int) list"

section \<open>String methods\<close>

text \<open>
  \<open>str.isspace\<close> on one character, which is also the class \<open>\s\<close> of \<open>re\<close> on
  \<open>str\<close> patterns: the characters that \<open>strip()\<close> and \<open>rstrip()\<close> remove.
\<close>

definition isspace :: "int \<Rightarrow> bool" where
  "isspace c \<longleftrightarrow>
     (0x09 \<le> c \<and> c \<le> 0x0D) \<or> (0x1C \<le> c \<and> c \<le> 0x20) \<or> c = 0x85 \<or> c = 0xA0 \<or>
     c = 0x1680 \<or> (0x2000 \<le> c \<and> c \<le> 0x200A) \<or> c = 0x2028 \<or> c = 0x2029 \<or>
     c = 0x202F \<or> c = 0x205F \<or> c = 0x3000"

definition lstrip :: "pystr \<Rightarrow> pystr" where
  "lstrip s = dropWhile isspace s"

definition rstrip :: "pystr \<Rightarrow> pystr" where
  "rstrip s = rev (dropWhile isspace (rev s))"

definition strip :: "pystr \<Rightarrow> pystr" where
  "strip s = lstrip (rstrip s)"

text \<open>\<open>s.lstrip(' ')\<close> removes leading U+0020 only.\<close>

definition lstrip_space :: "pystr \<Rightarrow> pystr" where
  "lstrip_space s = dropWhile (\<lambda>c. c = 0x20) s"

text \<open>
  \<open>s.replace(old, new)\<close>: the occurrences of \<open>old\<close> are found from left to right
  and do not overlap. An empty \<open>old\<close> matches before every character and at the end.
\<close>

fun py_replace :: "pystr \<Rightarrow> pystr \<Rightarrow> pystr \<Rightarrow> pystr" where
  "py_replace [] new s = new @ concat (map (\<lambda>c. c # new) s)"
| "py_replace (p # ps) new [] = []"
| "py_replace (p # ps) new (c # cs) =
     (if take (length (p # ps)) (c # cs) = p # ps
      then new @ py_replace (p # ps) new (drop (length ps) cs)
      else c # py_replace (p # ps) new cs)"

text \<open>\<open>sep.join(xs)\<close>\<close>

fun py_join :: "pystr \<Rightarrow> pystr list \<Rightarrow> pystr" where
  "py_join sep [] = []"
| "py_join sep [x] = x"
| "py_join sep (x # y # ys) = x @ sep @ py_join sep (y # ys)"

section \<open>Floating point\<close>

text \<open>
  A finite \<open>float\<close> is the rational number it denotes. \<open>to_double\<close> is the rounding
  of IEEE 754 binary64, round to nearest, ties to even: 53 significant bits, the
  exponent of the unit in the last place not below \<open>-1074\<close>; the result is \<open>None\<close>
  when the rounded magnitude exceeds the largest finite double (infinity, or an
  \<open>OverflowError\<close>, as the operation has it). \<open>float(str)\<close>, \<open>float(int)\<close> and the
  arithmetic of CPython are correctly rounded, so each is the exact result passed
  through \<open>to_double\<close>.
\<close>

definition round_half_even :: "rat \<Rightarrow> int" where
  "round_half_even q =
     (let f = \<lfloor>q\<rfloor>; r = q - of_int f in
      if r < 1 / 2 then f else if 1 / 2 < r then f + 1 else if even f then f else f + 1)"

text \<open>\<open>ilog2 q\<close> is \<open>\<lfloor>log\<^sub>2 q\<rfloor>\<close> for a positive rational \<open>q\<close>.\<close>

definition ilog2 :: "rat \<Rightarrow> int" where
  "ilog2 q =
     (let (a, b) = quotient_of q; e = bitlen a - bitlen b in
      if 2 powi e \<le> q then e else e - 1)"

definition max_double :: rat where
  "max_double = (2 ^ 53 - 1) * 2 ^ 971"

definition to_double :: "rat \<Rightarrow> rat option" where
  "to_double q =
     (if q = 0 then Some 0
      else
        (let a = \<bar>q\<bar>;
             ulp = 2 powi (max (ilog2 a) (- 1022) - 52);
             r = of_int (round_half_even (a / ulp)) * ulp
         in if max_double < r then None else Some (sgn q * r)))"

section \<open>Size decoding: \<open>parse_size_to_bytes\<close>\<close>

text \<open>
  The class \<open>\d\<close> of \<open>re\<close> on \<open>str\<close> patterns is the Unicode category Nd, the
  characters \<open>float\<close> reads as decimal digits. They come in runs of ten consecutive
  code points, digit zero first; the list holds the first code point of each run
  (Unicode 14.0, the database of CPython 3.11).
\<close>

definition decimal_starts :: "int list" where
  "decimal_starts =
     [0x30, 0x660, 0x6F0, 0x7C0, 0x966, 0x9E6, 0xA66, 0xAE6, 0xB66, 0xBE6, 0xC66, 0xCE6,
      0xD66, 0xDE6, 0xE50, 0xED0, 0xF20, 0x1040, 0x1090, 0x17E0, 0x1810, 0x1946, 0x19D0,
      0x1A80, 0x1A90, 0x1B50, 0x1BB0, 0x1C40, 0x1C50, 0xA620, 0xA8D0, 0xA900, 0xA9D0,
      0xA9F0, 0xAA50, 0xABF0, 0xFF10, 0x104A0, 0x10D30, 0x11066, 0x110F0, 0x11136,
      0x111D0, 0x112F0, 0x11450, 0x114D0, 0x11650, 0x116C0, 0x11730, 0x118E0, 0x11950,
      0x11C50, 0x11D50, 0x11DA0, 0x16A60, 0x16AC0, 0x16B50, 0x1D7CE, 0x1D7D8, 0x1D7E2,
      0x1D7EC, 0x1D7F6, 0x1E140, 0x1E2F0, 0x1E950, 0x1FBF0]"

fun digit_in :: "int list \<Rightarrow> int \<Rightarrow> int option" where
  "digit_in [] c = None"
| "digit_in (s # ss) c = (if s \<le> c \<and> c < s + 10 then Some (c - s) else digit_in ss c)"

definition decimal :: "int \<Rightarrow> int option" where
  "decimal c = digit_in decimal_starts c"

definition isdecimal :: "int \<Rightarrow> bool" where
  "isdecimal c \<longleftrightarrow> decimal c \<noteq> None"

text \<open>The class \<open>[\d.]\<close>.\<close>

definition digit_or_dot :: "int \<Rightarrow> bool" where
  "digit_or_dot c \<longleftrightarrow> isdecimal c \<or> c = 0x2E"

text \<open>
  The dictionary \<open>multipliers\<close>, in the order of the alternation
  \<open>(B|KB|MB|GB|TB)\<close>.
\<close>

definition multipliers :: "(pystr \<times> int) list" where
  "multipliers =
     [(str ''B'', 1), (str ''KB'', 1024), (str ''MB'', 1024 ^ 2), (str ''GB'', 1024 ^ 3),
      (str ''TB'', 1024 ^ 4)]"

definition startswith :: "pystr \<Rightarrow> pystr \<Rightarrow> bool" where
  "startswith s u \<longleftrightarrow> take (length u) s = u"

text \<open>The alternation at the head of \<open>s\<close>: the first alternative that matches.\<close>

definition match_unit :: "pystr \<Rightarrow> pystr option" where
  "match_unit s = find (startswith s) (map fst multipliers)"

text \<open>
  A greedy quantifier takes the longest run first and gives characters back one at a
  time while the rest of the pattern fails: \<open>try_down f n\<close> is the first success among
  \<open>f n\<close>, \<open>f (n - 1)\<close>, ..., \<open>f 0\<close>.
\<close>

fun try_down :: "(nat \<Rightarrow> 'a option) \<Rightarrow> nat \<Rightarrow> 'a option" where
  "try_down f 0 = f 0"
| "try_down f (Suc n) = (case f (Suc n) of Some r \<Rightarrow> Some r | None \<Rightarrow> try_down f n)"

text \<open>\<open>\s*(B|KB|MB|GB|TB)\<close> at the head of \<open>s\<close>; the result is group 2.\<close>

definition match_space_unit :: "pystr \<Rightarrow> pystr option" where
  "match_space_unit s =
     try_down (\<lambda>j. match_unit (drop j s)) (length (takeWhile isspace s))"

text \<open>
  The whole pattern \<open>([\d.]+)\s*(B|KB|MB|GB|TB)\<close> at the head of \<open>s\<close>; the result
  is groups 1 and 2.
\<close>

definition match_here :: "pystr \<Rightarrow> (pystr \<times> pystr) option" where
  "match_here s =
     try_down
       (\<lambda>k. if k = 0 then None
            else map_option (\<lambda>u. (take k s, u)) (match_space_unit (drop k s)))
       (length (takeWhile digit_or_dot s))"

text \<open>\<open>re.search\<close>: the match at the leftmost position that has one.\<close>

fun re_search :: "pystr \<Rightarrow> (pystr \<times> pystr) option" where
  "re_search [] = match_here []"
| "re_search (c # cs) =
     (case match_here (c # cs) of Some m \<Rightarrow> Some m | None \<Rightarrow> re_search cs)"

text \<open>
  \<open>float(s)\<close> for a string of group 1, that is of decimal digits and dots: digits,
  then optionally a dot and digits, with a digit somewhere; anything else raises
  \<open>ValueError\<close>, whose text quotes the string. The value is \<open>None\<close> for infinity.
\<close>

definition digits_value :: "pystr \<Rightarrow> int" where
  "digits_value ds = foldl (\<lambda>a c. 10 * a + (case decimal c of None \<Rightarrow> 0 | Some d \<Rightarrow> d)) 0 ds"

definition float_error :: "pystr \<Rightarrow> py_error" where
  "float_error s =
     ValueError (str ''could not convert string to float: '' @ quote s)"

definition py_float :: "pystr \<Rightarrow> py_error + rat option" where
  "py_float s =
     (let ip = takeWhile isdecimal s; rest = dropWhile isdecimal s in
      case rest of
        [] \<Rightarrow> if ip = [] then Inl (float_error s)
              else Inr (to_double (of_int (digits_value ip)))
      | c # fp \<Rightarrow>
          if c = 0x2E \<and> list_all isdecimal fp \<and> (ip \<noteq> [] \<or> fp \<noteq> [])
          then Inr (to_double (of_int (digits_value (ip @ fp)) / 10 ^ length fp))
          else Inl (float_error s))"

text \<open>
  \<open>value * multipliers[unit]\<close>, a float times an int that is a power of two, and
  \<open>int(...)\<close>, which truncates and raises \<open>OverflowError\<close> on infinity.
\<close>

definition float_mul :: "rat option \<Rightarrow> int \<Rightarrow> rat option" where
  "float_mul x m = (case x of None \<Rightarrow> None | Some v \<Rightarrow> to_double (v * of_int m))"

definition py_int :: "rat option \<Rightarrow> py_error + int" where
  "py_int x =
     (case x of
        None \<Rightarrow> Inl (OverflowError (str ''cannot convert float infinity to integer''))
      | Some v \<Rightarrow> Inr (if 0 \<le> v then \<lfloor>v\<rfloor> else \<lceil>v\<rceil>))"

definition parse_size_to_bytes :: "pystr \<Rightarrow> py_error + int" where
  "parse_size_to_bytes size_str =
     (case re_search size_str of
        None \<Rightarrow> Inr 0
      | Some (group1, unit) \<Rightarrow>
          (case py_float group1 of
             Inl e \<Rightarrow> Inl e
           | Inr value \<Rightarrow>
               (case map_of multipliers unit of
                  None \<Rightarrow> Inl (KeyError (quote unit))
                | Some m \<Rightarrow> py_int (float_mul value m))))"

section \<open>The diff engine (the loop of \<open>main\<close>)\<close>

record diff_lists =
  added :: "(pystr \<times> int) list"
  removed :: "(pystr \<times> int) list"
  changed :: "(pystr \<times> int \<times> int) list"

text \<open>\<open>all_paths = sorted(set(old_snap.keys()) | set(new_snap.keys()))\<close>\<close>

definition all_paths :: "snapshot \<Rightarrow> snapshot \<Rightarrow> pystr list" where
  "all_paths old_snap new_snap =
     sorted_list_of_set (set (map fst old_snap) \<union> set (map fst new_snap))"

text \<open>
  The body of \<open>for path in all_paths\<close>, with the three result lists passed along.
  \<open>snap[path]\<close> on a missing key raises \<open>KeyError\<close>; these branches are kept, and
  shown unreachable below.
\<close>

fun diff_loop :: "snapshot \<Rightarrow> snapshot \<Rightarrow> pystr list \<Rightarrow> diff_lists \<Rightarrow> py_error + diff_lists" where
  "diff_loop old_snap new_snap [] acc = Inr acc"
| "diff_loop old_snap new_snap (path # rest) acc =
     (if map_of old_snap path = None then
        (case map_of new_snap path of
           None \<Rightarrow> Inl (KeyError (quote path))
         | Some new_size \<Rightarrow>
             diff_loop old_snap new_snap rest (acc\<lparr>added := added acc @ [(path, new_size)]\<rparr>))
      else if map_of new_snap path = None then
        (case map_of old_snap path of
           None \<Rightarrow> Inl (KeyError (quote path))
         | Some old_size \<Rightarrow>
             diff_loop old_snap new_snap rest (acc\<lparr>removed := removed acc @ [(path, old_size)]\<rparr>))
      else
        (case map_of new_snap path of
           None \<Rightarrow> Inl (KeyError (quote path))
         | Some new_size \<Rightarrow>
            (case map_of old_snap path of
               None \<Rightarrow> Inl (KeyError (quote path))
             | Some old_size \<Rightarrow>
                 (let diff = new_size - old_size in
                  if diff \<noteq> 0 then
                    diff_loop old_snap new_snap rest
                      (acc\<lparr>changed := changed acc @ [(path, diff, new_size)]\<rparr>)
                  else diff_loop old_snap new_snap rest acc))))"

definition diff_engine :: "snapshot \<Rightarrow> snapshot \<Rightarrow> py_error + diff_lists" where
  "diff_engine old_snap new_snap =
     diff_loop old_snap new_snap (all_paths old_snap new_snap)
       \<lparr>added = [], removed = [], changed = []\<rparr>"

subsection \<open>What the loop appends for one path\<close>

definition added_at :: "snapshot \<Rightarrow> snapshot \<Rightarrow> pystr \<Rightarrow> (pystr \<times> int) list" where
  "added_at old_snap new_snap p =
     (case (map_of old_snap p, map_of new_snap p) of
        (None, Some new_size) \<Rightarrow> [(p, new_size)]
      | _ \<Rightarrow> [])"

definition removed_at :: "snapshot \<Rightarrow> snapshot \<Rightarrow> pystr \<Rightarrow> (pystr \<times> int) list" where
  "removed_at old_snap new_snap p =
     (case (map_of old_snap p, map_of new_snap p) of
        (Some old_size, None) \<Rightarrow> [(p, old_size)]
      | _ \<Rightarrow> [])"

definition changed_at :: "snapshot \<Rightarrow> snapshot \<Rightarrow> pystr \<Rightarrow> (pystr \<times> int \<times> int) list" where
  "changed_at old_snap new_snap p =
     (case (map_of old_snap p, map_of new_snap p) of
        (Some old_size, Some new_size) \<Rightarrow> if new_size - old_size \<noteq> 0 then [(p, new_size - old_size, new_size)] else []
      | _ \<Rightarrow> [])"

definition in_union :: "snapshot \<Rightarrow> snapshot \<Rightarrow> pystr \<Rightarrow> bool" where
  "in_union old_snap new_snap p = (map_of old_snap p \<noteq> None \<or> map_of new_snap p \<noteq> None)"

lemma in_union_iff:
  "in_union old_snap new_snap p \<longleftrightarrow> p \<in> set (map fst old_snap) \<union> set (map fst new_snap)"
  by (auto simp: in_union_def map_of_eq_None_iff)

lemma diff_loop_eq:
  "list_all (in_union old_snap new_snap) ps \<Longrightarrow>
   diff_loop old_snap new_snap ps acc =
     Inr \<lparr>added = added acc @ concat (map (added_at old_snap new_snap) ps),
          removed = removed acc @ concat (map (removed_at old_snap new_snap) ps),
          changed = changed acc @ concat (map (changed_at old_snap new_snap) ps)\<rparr>"
proof (induction ps arbitrary: acc)
  case Nil
  show ?case by simp
next
  case (Cons p ps)
  from Cons.prems have rest: "list_all (in_union old_snap new_snap) ps"
    and here: "in_union old_snap new_snap p" by simp_all
  show ?case
  proof (cases "map_of old_snap p")
    case None
    with here obtain n where n: "map_of new_snap p = Some n"
      by (auto simp: in_union_def)
    show ?thesis
      by (simp add: None n Cons.IH [OF rest] added_at_def removed_at_def changed_at_def)
  next
    case (Some old_size)
    show ?thesis
    proof (cases "map_of new_snap p")
      case None
      show ?thesis
        by (simp add: None Some Cons.IH [OF rest] added_at_def removed_at_def changed_at_def)
    next
      case (Some n)
      show ?thesis
        by (simp add: \<open>map_of old_snap p = Some old_size\<close> Some Cons.IH [OF rest]
            added_at_def removed_at_def changed_at_def Let_def)
    qed
  qed
qed

lemma all_paths_set:
  "set (all_paths old_snap new_snap) = set (map fst old_snap) \<union> set (map fst new_snap)"
  by (simp add: all_paths_def)

lemma all_paths_sorted: "sorted_wrt (<) (all_paths old_snap new_snap)"
  unfolding all_paths_def by (rule strict_sorted_list_of_set)

lemma all_paths_in_union: "list_all (in_union old_snap new_snap) (all_paths old_snap new_snap)"
  by (simp add: list_all_iff in_union_iff all_paths_set)

lemma diff_engine_eq:
  "diff_engine old_snap new_snap =
     Inr \<lparr>added = concat (map (added_at old_snap new_snap) (all_paths old_snap new_snap)),
          removed = concat (map (removed_at old_snap new_snap) (all_paths old_snap new_snap)),
          changed = concat (map (changed_at old_snap new_snap) (all_paths old_snap new_snap))\<rparr>"
  by (simp add: diff_engine_def diff_loop_eq [OF all_paths_in_union])

lemma at_keys:
  "x \<in> set (added_at old_snap new_snap q) \<Longrightarrow> fst x = q"
  "x \<in> set (removed_at old_snap new_snap q) \<Longrightarrow> fst x = q"
  "y \<in> set (changed_at old_snap new_snap q) \<Longrightarrow> fst y = q"
  by (auto simp: added_at_def removed_at_def changed_at_def split: option.splits if_splits)

lemma filter_concat_key:
  assumes key: "\<And>q x. x \<in> set (f q) \<Longrightarrow> key x = q" and d: "distinct ps"
  shows "filter (\<lambda>x. key x = p) (concat (map f ps)) = (if p \<in> set ps then f p else [])"
  using d
proof (induction ps)
  case Nil
  show ?case by simp
next
  case (Cons q ps)
  have here: "filter (\<lambda>x. key x = p) (f q) = (if q = p then f q else [])"
    by (auto simp: filter_empty_conv filter_id_conv dest: key)
  from Cons show ?case by (auto simp: here)
qed

lemma sorted_concat_key:
  assumes key: "\<And>q x. x \<in> set (f q) \<Longrightarrow> key x = q"
    and one: "\<And>q. length (f q) \<le> 1"
    and s: "sorted_wrt (<) ps"
  shows "sorted_wrt (<) (map key (concat (map f ps)))"
proof -
  have single: "map key (f q) = (if f q = [] then [] else [q])" for q
  proof (cases "f q")
    case Nil
    then show ?thesis by simp
  next
    case (Cons x xs)
    with one [of q] have "xs = []" by simp
    with Cons key [of x q] show ?thesis by simp
  qed
  have "map key (concat (map f ps)) = filter (\<lambda>q. f q \<noteq> []) ps"
    by (induction ps) (simp_all add: single)
  with s show ?thesis by (simp add: sorted_wrt_filter)
qed

lemma at_length:
  "length (added_at old_snap new_snap q) \<le> 1"
  "length (removed_at old_snap new_snap q) \<le> 1"
  "length (changed_at old_snap new_snap q) \<le> 1"
  by (auto simp: added_at_def removed_at_def changed_at_def split: option.splits)

lemma at_length_sum:
  "length (added_at old_snap new_snap q) + length (removed_at old_snap new_snap q)
     + length (changed_at old_snap new_snap q) \<le> 1"
  by (auto simp: added_at_def removed_at_def changed_at_def split: option.splits)

lemma concat_length_sum:
  "length (concat (map (added_at old_snap new_snap) ps))
     + length (concat (map (removed_at old_snap new_snap) ps))
     + length (concat (map (changed_at old_snap new_snap) ps)) \<le> length ps"
proof (induction ps)
  case Nil
  show ?case by simp
next
  case (Cons q ps)
  with at_length_sum [of old_snap new_snap q] show ?case by simp
qed

lemma all_paths_commute: "all_paths new_snap old_snap = all_paths old_snap new_snap"
  by (simp add: all_paths_def Un_commute)

lemma all_paths_length:
  "length (all_paths old_snap new_snap) = card (set (map fst old_snap) \<union> set (map fst new_snap))"
  by (simp add: all_paths_def)

lemma changed_current:
  "(p, d, s) \<in> set (concat (map (changed_at old_snap new_snap) ps)) \<Longrightarrow>
     map_of new_snap p = Some s \<and> (\<exists>old_size. map_of old_snap p = Some old_size \<and> d = s - old_size)"
  by (auto simp: changed_at_def split: option.splits if_splits)

text \<open>Two small snapshots used to run the engine.\<close>

definition ex_old :: snapshot where
  "ex_old = [(str ''a'', 1), (str ''b'', 2), (str ''c'', 3)]"

definition ex_new :: snapshot where
  "ex_new = [(str ''b'', 5), (str ''c'', 3), (str ''d'', 4)]"

lemma ex_diff:
  "diff_engine ex_old ex_new =
     Inr \<lparr>added = [(str ''d'', 4)], removed = [(str ''a'', 1)], changed = [(str ''b'', 3, 5)]\<rparr>"
  by code_simp

lemma at_only_new:
  "map_of old_snap p = None \<Longrightarrow> map_of new_snap p = Some new_size \<Longrightarrow>
     in_union old_snap new_snap p \<and> added_at old_snap new_snap p = [(p, new_size)] \<and>
     removed_at old_snap new_snap p = [] \<and> changed_at old_snap new_snap p = []"
  by (simp add: in_union_def added_at_def removed_at_def changed_at_def)

lemma at_only_old:
  "map_of old_snap p = Some old_size \<Longrightarrow> map_of new_snap p = None \<Longrightarrow>
     in_union old_snap new_snap p \<and> added_at old_snap new_snap p = [] \<and>
     removed_at old_snap new_snap p = [(p, old_size)] \<and> changed_at old_snap new_snap p = []"
  by (simp add: in_union_def added_at_def removed_at_def changed_at_def)

lemma at_both:
  "map_of old_snap p = Some old_size \<Longrightarrow> map_of new_snap p = Some new_size \<Longrightarrow>
     in_union old_snap new_snap p \<and> added_at old_snap new_snap p = [] \<and>
     removed_at old_snap new_snap p = [] \<and>
     changed_at old_snap new_snap p =
       (if old_size = new_size then [] else [(p, new_size - old_size, new_size)])"
  by (simp add: in_union_def added_at_def removed_at_def changed_at_def)

lemma at_neither:
  "map_of old_snap p = None \<Longrightarrow> map_of new_snap p = None \<Longrightarrow> \<not> in_union old_snap new_snap p"
  by (simp add: in_union_def)

lemma filter_at:
  "filter (\<lambda>x. fst x = p) (concat (map (added_at old_snap new_snap) (all_paths old_snap new_snap)))
     = (if in_union old_snap new_snap p then added_at old_snap new_snap p else [])"
  "filter (\<lambda>x. fst x = p) (concat (map (removed_at old_snap new_snap) (all_paths old_snap new_snap)))
     = (if in_union old_snap new_snap p then removed_at old_snap new_snap p else [])"
  "filter (\<lambda>y. fst y = p) (concat (map (changed_at old_snap new_snap) (all_paths old_snap new_snap)))
     = (if in_union old_snap new_snap p then changed_at old_snap new_snap p else [])"
proof -
  let ?ps = "all_paths old_snap new_snap"
  have d: "distinct ?ps"
    using all_paths_sorted [of old_snap new_snap] by (simp add: strict_sorted_iff)
  have mem: "p \<in> set ?ps \<longleftrightarrow> in_union old_snap new_snap p"
    by (simp add: in_union_iff all_paths_set)
  show "filter (\<lambda>x. fst x = p) (concat (map (added_at old_snap new_snap) ?ps))
     = (if in_union old_snap new_snap p then added_at old_snap new_snap p else [])"
    using filter_concat_key [where f = "added_at old_snap new_snap" and key = fst, OF at_keys(1) d]
    by (simp add: mem)
  show "filter (\<lambda>x. fst x = p) (concat (map (removed_at old_snap new_snap) ?ps))
     = (if in_union old_snap new_snap p then removed_at old_snap new_snap p else [])"
    using filter_concat_key [where f = "removed_at old_snap new_snap" and key = fst, OF at_keys(2) d]
    by (simp add: mem)
  show "filter (\<lambda>y. fst y = p) (concat (map (changed_at old_snap new_snap) ?ps))
     = (if in_union old_snap new_snap p then changed_at old_snap new_snap p else [])"
    using filter_concat_key [where f = "changed_at old_snap new_snap" and key = fst, OF at_keys(3) d]
    by (simp add: mem)
qed

section \<open>Properties of the diff engine\<close>

text \<open>
  C1. For two snapshots and any path: a path only in the new snapshot gets exactly the
  record \<open>(path, newSize)\<close> in the added list and none elsewhere; a path only in the old
  snapshot gets exactly \<open>(path, oldSize)\<close> in the removed list; a path in both with
  equal sizes gets no record; a path in both with different sizes gets exactly
  \<open>(path, newSize - oldSize, newSize)\<close> in the changed list; a path in neither gets
  nothing. The four cases exclude each other and cover the union of the keys, and the
  loop never raises \<open>KeyError\<close>.
\<close>

theorem diff_engine_four_cases:
  "\<exists>r. diff_engine old_snap new_snap = Inr r \<and>
     (\<forall>p new_size. map_of old_snap p = None \<and> map_of new_snap p = Some new_size \<longrightarrow>
        filter (\<lambda>x. fst x = p) (added r) = [(p, new_size)] \<and>
        filter (\<lambda>x. fst x = p) (removed r) = [] \<and>
        filter (\<lambda>x. fst x = p) (changed r) = []) \<and>
     (\<forall>p old_size. map_of old_snap p = Some old_size \<and> map_of new_snap p = None \<longrightarrow>
        filter (\<lambda>x. fst x = p) (added r) = [] \<and>
        filter (\<lambda>x. fst x = p) (removed r) = [(p, old_size)] \<and>
        filter (\<lambda>x. fst x = p) (changed r) = []) \<and>
     (\<forall>p old_size new_size.
        map_of old_snap p = Some old_size \<and> map_of new_snap p = Some new_size
          \<and> old_size = new_size \<longrightarrow>
        filter (\<lambda>x. fst x = p) (added r) = [] \<and>
        filter (\<lambda>x. fst x = p) (removed r) = [] \<and>
        filter (\<lambda>x. fst x = p) (changed r) = []) \<and>
     (\<forall>p old_size new_size.
        map_of old_snap p = Some old_size \<and> map_of new_snap p = Some new_size
          \<and> old_size \<noteq> new_size \<longrightarrow>
        filter (\<lambda>x. fst x = p) (added r) = [] \<and>
        filter (\<lambda>x. fst x = p) (removed r) = [] \<and>
        filter (\<lambda>x. fst x = p) (changed r) = [(p, new_size - old_size, new_size)]) \<and>
     (\<forall>p. map_of old_snap p = None \<and> map_of new_snap p = None \<longrightarrow>
        filter (\<lambda>x. fst x = p) (added r) = [] \<and>
        filter (\<lambda>x. fst x = p) (removed r) = [] \<and>
        filter (\<lambda>x. fst x = p) (changed r) = [])"
proof (intro exI conjI allI impI)
  show "diff_engine old_snap new_snap =
     Inr \<lparr>added = concat (map (added_at old_snap new_snap) (all_paths old_snap new_snap)),
          removed = concat (map (removed_at old_snap new_snap) (all_paths old_snap new_snap)),
          changed = concat (map (changed_at old_snap new_snap) (all_paths old_snap new_snap))\<rparr>"
    by (rule diff_engine_eq)
qed (simp_all add: filter_at at_only_new at_only_old at_both at_neither)

theorem diff_engine_four_cases_witness:
  "\<exists>r. diff_engine ex_old ex_new = Inr r \<and>
     filter (\<lambda>x. fst x = str ''d'') (added r) = [(str ''d'', 4)] \<and>
     filter (\<lambda>x. fst x = str ''a'') (removed r) = [(str ''a'', 1)] \<and>
     filter (\<lambda>x. fst x = str ''c'') (changed r) = [] \<and>
     filter (\<lambda>x. fst x = str ''b'') (changed r) = [(str ''b'', 3, 5)] \<and>
     filter (\<lambda>x. fst x = str ''e'') (added r) = []"
proof -
  have m: "map_of ex_old (str ''d'') = None \<and> map_of ex_new (str ''d'') = Some 4"
    "map_of ex_old (str ''a'') = Some 1 \<and> map_of ex_new (str ''a'') = None"
    "map_of ex_old (str ''c'') = Some 3 \<and> map_of ex_new (str ''c'') = Some 3 \<and> (3::int) = 3"
    "map_of ex_old (str ''b'') = Some 2 \<and> map_of ex_new (str ''b'') = Some 5 \<and> (2::int) \<noteq> 5"
    "map_of ex_old (str ''e'') = None \<and> map_of ex_new (str ''e'') = None"
    by (simp_all add: ex_old_def ex_new_def str_def)
  from diff_engine_four_cases [of ex_old ex_new] obtain r where
    r: "diff_engine ex_old ex_new = Inr r"
    and c1: "\<forall>p new_size. map_of ex_old p = None \<and> map_of ex_new p = Some new_size \<longrightarrow>
        filter (\<lambda>x. fst x = p) (added r) = [(p, new_size)] \<and>
        filter (\<lambda>x. fst x = p) (removed r) = [] \<and>
        filter (\<lambda>x. fst x = p) (changed r) = []"
    and c2: "\<forall>p old_size. map_of ex_old p = Some old_size \<and> map_of ex_new p = None \<longrightarrow>
        filter (\<lambda>x. fst x = p) (added r) = [] \<and>
        filter (\<lambda>x. fst x = p) (removed r) = [(p, old_size)] \<and>
        filter (\<lambda>x. fst x = p) (changed r) = []"
    and c3: "\<forall>p old_size new_size.
        map_of ex_old p = Some old_size \<and> map_of ex_new p = Some new_size
          \<and> old_size = new_size \<longrightarrow>
        filter (\<lambda>x. fst x = p) (added r) = [] \<and>
        filter (\<lambda>x. fst x = p) (removed r) = [] \<and>
        filter (\<lambda>x. fst x = p) (changed r) = []"
    and c4: "\<forall>p old_size new_size.
        map_of ex_old p = Some old_size \<and> map_of ex_new p = Some new_size
          \<and> old_size \<noteq> new_size \<longrightarrow>
        filter (\<lambda>x. fst x = p) (added r) = [] \<and>
        filter (\<lambda>x. fst x = p) (removed r) = [] \<and>
        filter (\<lambda>x. fst x = p) (changed r) = [(p, new_size - old_size, new_size)]"
    and c5: "\<forall>p. map_of ex_old p = None \<and> map_of ex_new p = None \<longrightarrow>
        filter (\<lambda>x. fst x = p) (added r) = [] \<and>
        filter (\<lambda>x. fst x = p) (removed r) = [] \<and>
        filter (\<lambda>x. fst x = p) (changed r) = []"
    by (elim exE conjE)
  from c1 m(1) have 1: "filter (\<lambda>x. fst x = str ''d'') (added r) = [(str ''d'', 4)]"
    by blast
  from c2 m(2) have 2: "filter (\<lambda>x. fst x = str ''a'') (removed r) = [(str ''a'', 1)]"
    by blast
  from c3 m(3) have 3: "filter (\<lambda>x. fst x = str ''c'') (changed r) = []"
    by blast
  from c4 [rule_format, OF m(4)] have 4: "filter (\<lambda>x. fst x = str ''b'') (changed r) = [(str ''b'', 3, 5)]"
    by simp
  from c5 m(5) have 5: "filter (\<lambda>x. fst x = str ''e'') (added r) = []"
    by blast
  from r 1 2 3 4 5 show ?thesis by blast
qed


text \<open>
  C5. The engine iterates the lexicographically sorted union of the two key sets (a
  strictly ascending list whose elements are exactly the keys of either snapshot);
  each of the added, removed and changed lists is sorted by path, strictly ascending;
  and the three lengths sum to at most the number of paths in the union.
\<close>

theorem diff_engine_sorted:
  "sorted_wrt (<) (all_paths old_snap new_snap) \<and>
   set (all_paths old_snap new_snap) = set (map fst old_snap) \<union> set (map fst new_snap) \<and>
   diff_engine old_snap new_snap =
     diff_loop old_snap new_snap (all_paths old_snap new_snap)
       \<lparr>added = [], removed = [], changed = []\<rparr> \<and>
   (\<exists>r. diff_engine old_snap new_snap = Inr r \<and>
        sorted_wrt (<) (map fst (added r)) \<and>
        sorted_wrt (<) (map fst (removed r)) \<and>
        sorted_wrt (<) (map fst (changed r)) \<and>
        length (added r) + length (removed r) + length (changed r)
          \<le> card (set (map fst old_snap) \<union> set (map fst new_snap)))"
proof (intro conjI exI)
  let ?ps = "all_paths old_snap new_snap"
  note s = all_paths_sorted [of old_snap new_snap]
  show "sorted_wrt (<) ?ps" by (rule s)
  show "set ?ps = set (map fst old_snap) \<union> set (map fst new_snap)"
    by (rule all_paths_set)
  show "diff_engine old_snap new_snap =
     diff_loop old_snap new_snap ?ps \<lparr>added = [], removed = [], changed = []\<rparr>"
    by (rule diff_engine_def)
  let ?r = "\<lparr>added = concat (map (added_at old_snap new_snap) ?ps),
          removed = concat (map (removed_at old_snap new_snap) ?ps),
          changed = concat (map (changed_at old_snap new_snap) ?ps)\<rparr>"
  show "diff_engine old_snap new_snap = Inr ?r"
    by (rule diff_engine_eq)
  show "sorted_wrt (<) (map fst (added ?r))"
    using sorted_concat_key [OF at_keys(1) at_length(1) s] by simp
  show "sorted_wrt (<) (map fst (removed ?r))"
    using sorted_concat_key [OF at_keys(2) at_length(2) s] by simp
  show "sorted_wrt (<) (map fst (changed ?r))"
    using sorted_concat_key [OF at_keys(3) at_length(3) s] by simp
  show "length (added ?r) + length (removed ?r) + length (changed ?r)
          \<le> card (set (map fst old_snap) \<union> set (map fst new_snap))"
    using concat_length_sum [of old_snap new_snap ?ps]
    by (simp only: all_paths_length [symmetric] diff_lists.simps)
qed

theorem diff_engine_sorted_witness:
  "all_paths ex_old ex_new = [str ''a'', str ''b'', str ''c'', str ''d''] \<and>
   (\<exists>r. diff_engine ex_old ex_new = Inr r \<and>
        sorted_wrt (<) (map fst (added r)) \<and>
        sorted_wrt (<) (map fst (removed r)) \<and>
        sorted_wrt (<) (map fst (changed r)) \<and>
        length (added r) + length (removed r) + length (changed r) \<le> 4)"
proof -
  have p: "all_paths ex_old ex_new = [str ''a'', str ''b'', str ''c'', str ''d'']"
    by code_simp
  have "card (set (map fst ex_old) \<union> set (map fst ex_new)) = length (all_paths ex_old ex_new)"
    by (simp only: all_paths_length)
  then have k: "card (set (map fst ex_old) \<union> set (map fst ex_new)) = 4"
    by (simp only: p) simp
  from diff_engine_sorted [of ex_old ex_new] obtain r where
    "diff_engine ex_old ex_new = Inr r"
    "sorted_wrt (<) (map fst (added r))"
    "sorted_wrt (<) (map fst (removed r))"
    "sorted_wrt (<) (map fst (changed r))"
    "length (added r) + length (removed r) + length (changed r)
       \<le> card (set (map fst ex_old) \<union> set (map fst ex_new))"
    by (elim exE conjE)
  with p show ?thesis by (simp only: k) blast
qed

lemma swap_at_fun:
  "added_at new_snap old_snap = removed_at old_snap new_snap"
  "removed_at new_snap old_snap = added_at old_snap new_snap"
  "changed_at new_snap old_snap =
     (\<lambda>q. map (\<lambda>(p, d, s). (p, - d, s - d)) (changed_at old_snap new_snap q))"
  by (rule ext, simp add: added_at_def removed_at_def changed_at_def split: option.splits)+

text \<open>
  C6. Swapping the two snapshots exchanges the added and the removed lists, record for
  record, and turns every changed record \<open>(p, delta, current)\<close> into
  \<open>(p, - delta, current - delta)\<close>: the delta is negated, and the reported current size
  is in each direction the size of the path in the snapshot passed as the new one.
\<close>

theorem diff_engine_swap:
  "\<exists>r r'. diff_engine old_snap new_snap = Inr r \<and> diff_engine new_snap old_snap = Inr r' \<and>
     removed r' = added r \<and> added r' = removed r \<and>
     changed r' = map (\<lambda>(p, d, s). (p, - d, s - d)) (changed r) \<and>
     (\<forall>x \<in> set (changed r). map_of new_snap (fst x) = Some (snd (snd x))) \<and>
     (\<forall>x \<in> set (changed r'). map_of old_snap (fst x) = Some (snd (snd x)))"
proof (intro exI conjI)
  let ?ps = "all_paths old_snap new_snap"
  let ?r = "\<lparr>added = concat (map (added_at old_snap new_snap) ?ps),
          removed = concat (map (removed_at old_snap new_snap) ?ps),
          changed = concat (map (changed_at old_snap new_snap) ?ps)\<rparr>"
  let ?r' = "\<lparr>added = concat (map (added_at new_snap old_snap) ?ps),
          removed = concat (map (removed_at new_snap old_snap) ?ps),
          changed = concat (map (changed_at new_snap old_snap) ?ps)\<rparr>"
  show "diff_engine old_snap new_snap = Inr ?r" by (rule diff_engine_eq)
  show "diff_engine new_snap old_snap = Inr ?r'"
    using diff_engine_eq [of new_snap old_snap]
    by (simp only: all_paths_commute [of new_snap old_snap])
  show "removed ?r' = added ?r"
    by (simp only: swap_at_fun(2) [of new_snap old_snap] diff_lists.simps)
  show "added ?r' = removed ?r"
    by (simp only: swap_at_fun(1) [of new_snap old_snap] diff_lists.simps)
  show "changed ?r' = map (\<lambda>(p, d, s). (p, - d, s - d)) (changed ?r)"
    by (simp add: swap_at_fun(3) [of new_snap old_snap] map_concat comp_def)
  show "\<forall>x \<in> set (changed ?r). map_of new_snap (fst x) = Some (snd (snd x))"
  proof
    fix x assume "x \<in> set (changed ?r)"
    then have "(fst x, fst (snd x), snd (snd x))
        \<in> set (concat (map (changed_at old_snap new_snap) ?ps))" by simp
    from changed_current [OF this] show "map_of new_snap (fst x) = Some (snd (snd x))"
      by simp
  qed
  show "\<forall>x \<in> set (changed ?r'). map_of old_snap (fst x) = Some (snd (snd x))"
  proof
    fix x assume "x \<in> set (changed ?r')"
    then have "(fst x, fst (snd x), snd (snd x))
        \<in> set (concat (map (changed_at new_snap old_snap) ?ps))" by simp
    from changed_current [OF this] show "map_of old_snap (fst x) = Some (snd (snd x))"
      by simp
  qed
qed

theorem diff_engine_swap_witness:
  "diff_engine ex_new ex_old =
     Inr \<lparr>added = [(str ''a'', 1)], removed = [(str ''d'', 4)], changed = [(str ''b'', - 3, 2)]\<rparr>"
proof -
  from diff_engine_swap [of ex_old ex_new] obtain r r' where
    r: "diff_engine ex_old ex_new = Inr r" and r': "diff_engine ex_new ex_old = Inr r'"
    and s: "removed r' = added r" "added r' = removed r"
      "changed r' = map (\<lambda>(p, d, s). (p, - d, s - d)) (changed r)"
    by (elim exE conjE)
  from r have "r = \<lparr>added = [(str ''d'', 4)], removed = [(str ''a'', 1)],
      changed = [(str ''b'', 3, 5)]\<rparr>"
    by (simp add: ex_diff)
  with s have "r' = \<lparr>added = [(str ''a'', 1)], removed = [(str ''d'', 4)],
      changed = [(str ''b'', - 3, 2)]\<rparr>"
    by simp
  with r' show ?thesis by simp
qed


end
